theory Spec2Isabelle
  imports Complex_Main "HOL-Library.Multiset" "HOL-Library.Stream"
begin

section \<open>The Schelling model of \<open>main.py\<close>\<close>

text \<open>
  The development embeds the simulation engine of \<open>main.py\<close>: the classes \<open>Agent\<close> and
  \<open>City\<close> with \<open>initialize_grid\<close>, \<open>get_neighbors\<close>, \<open>is_happy\<close>, \<open>relocate_agent\<close>,
  \<open>calculate_segregation\<close> and the loop of \<open>run_simulation\<close>. Plotting and console output
  are left out: they read the state and never write it.

  Conventions.
  \<^item> Python integers are \<open>int\<close>. Python floats (the three rates and every quotient) are
    idealised as exact rationals \<open>rat\<close>: rounding is not modelled.
  \<^item> The numpy array \<open>self.grid\<close> of shape \<open>(height, width)\<close> is a function from index pairs
    to cells. Only pairs inside the shape are ever read or written; numpy's index check
    (with its wrap-around of negative indices) is \<open>np_index\<close>.
  \<^item> The process-wide random generator is an explicit stream of naturals, threaded through
    every function that draws from it.
  \<^item> Exceptions are values of type \<open>error\<close>, returned as \<open>Inl\<close>.
\<close>

subsection \<open>Data\<close>

datatype error = IndexError | ValueError

text \<open>\<open>class Agent\<close>: one attribute, the type string (\<open>'R'\<close> or \<open>'B'\<close>).\<close>

datatype agent = Agent (agent_type: string)

text \<open>A cell of the grid holds an agent or Python's \<open>None\<close>.\<close>

type_synonym cell = "agent option"

type_synonym coord = "int \<times> int"

type_synonym rng = "nat stream"

record city =
  width :: int
  height :: int
  occupation_percentage :: rat
  discr_attr_percentage :: rat
  discrimination_rate :: rat
  grid :: "coord \<Rightarrow> cell"
  moved_agents :: "coord set"

text \<open>\<open>range(n)\<close>: the integers from 0 up to, not including, \<open>n\<close>; empty when \<open>n \<le> 0\<close>.\<close>

definition py_range :: "int \<Rightarrow> int list" where
  "py_range n = [0..n - 1]"

text \<open>
  Indexing one axis of length \<open>n\<close> with \<open>i\<close>, as numpy does: a negative index counts from
  the end, anything outside \<open>-n \<le> i < n\<close> raises \<open>IndexError\<close> (here \<open>None\<close>).
\<close>

definition np_index :: "int \<Rightarrow> int \<Rightarrow> int option" where
  "np_index n i =
     (if 0 \<le> i \<and> i < n then Some i
      else if - n \<le> i \<and> i < 0 then Some (i + n)
      else None)"

text \<open>The position that \<open>self.grid[x, y]\<close> denotes.\<close>

definition grid_index :: "city \<Rightarrow> int \<Rightarrow> int \<Rightarrow> error + coord" where
  "grid_index c x y =
     (case np_index (height c) x of
        None \<Rightarrow> Inl IndexError
      | Some i \<Rightarrow>
          (case np_index (width c) y of
             None \<Rightarrow> Inl IndexError
           | Some j \<Rightarrow> Inr (i, j)))"

text \<open>\<open>random.choice(seq)\<close> for a non-empty \<open>seq\<close>: one draw selects the position.\<close>

definition random_choice :: "rng \<Rightarrow> 'a list \<Rightarrow> 'a \<times> rng" where
  "random_choice rs xs = (xs ! (shd rs mod length xs), stl rs)"

subsection \<open>Neighbours and happiness\<close>

definition directions :: "(int \<times> int) list" where
  "directions = [(-1, 0), (1, 0), (0, -1), (0, 1), (-1, -1), (-1, 1), (1, -1), (1, 1)]"

text \<open>\<open>City.get_neighbors\<close>: the cells at the eight offsets that fall inside the grid.\<close>

definition get_neighbors :: "city \<Rightarrow> int \<Rightarrow> int \<Rightarrow> cell list" where
  "get_neighbors c x y =
     [grid c (nx, ny).
        (nx, ny) \<leftarrow> [(x + dx, y + dy). (dx, dy) \<leftarrow> directions],
        0 \<le> nx \<and> nx < height c \<and> 0 \<le> ny \<and> ny < width c]"

text \<open>The test \<open>neighbor and neighbor.type == agent.type\<close>.\<close>

fun similar_to :: "agent \<Rightarrow> cell \<Rightarrow> bool" where
  "similar_to a None = False"
| "similar_to a (Some n) = (agent_type n = agent_type a)"

text \<open>\<open>City.is_happy\<close>.\<close>

definition is_happy :: "city \<Rightarrow> int \<Rightarrow> int \<Rightarrow> error + bool" where
  "is_happy c x y =
     (case grid_index c x y of
        Inl e \<Rightarrow> Inl e
      | Inr p \<Rightarrow>
          (case grid c p of
             None \<Rightarrow> Inr True
           | Some a \<Rightarrow>
               (let neighbors = get_neighbors c x y;
                    similar = length (filter (similar_to a) neighbors);
                    total = length (filter (\<lambda>n. n \<noteq> None) neighbors)
                in if total = 0 then Inr True
                   else Inr (discrimination_rate c \<le> of_nat similar / of_nat total))))"

subsection \<open>Relocation\<close>

text \<open>The list \<open>vacant_cells\<close> that \<open>relocate_agent\<close> builds, in scan order.\<close>

definition vacant_cells :: "city \<Rightarrow> coord list" where
  "vacant_cells c =
     [(i, j). i \<leftarrow> py_range (height c), j \<leftarrow> py_range (width c), grid c (i, j) = None]"

text \<open>
  \<open>City.relocate_agent\<close>. With no vacant cell nothing happens and nothing is drawn.
  Otherwise the destination is drawn, \<open>(x, y)\<close> enters \<open>moved_agents\<close>, and the two grid
  assignments follow in the order of the source; reading \<open>self.grid[x, y]\<close> can raise.
\<close>

definition relocate_agent :: "city \<Rightarrow> rng \<Rightarrow> int \<Rightarrow> int \<Rightarrow> error + city \<times> rng" where
  "relocate_agent c rs x y =
     (let vacant = vacant_cells c in
      if vacant \<noteq> [] then
        (let (new, rs') = random_choice rs vacant;
             moved = insert (x, y) (moved_agents c)
         in case grid_index c x y of
              Inl e \<Rightarrow> Inl e
            | Inr p \<Rightarrow>
                Inr (c\<lparr>moved_agents := moved,
                        grid := (grid c)(new := grid c p, p := None)\<rparr>, rs'))
      else Inr (c, rs))"

text \<open>
  The scan order \<open>for i in range(self.height) for j in range(self.width)\<close> that every
  pass over the grid uses.
\<close>

definition all_cells :: "city \<Rightarrow> coord list" where
  "all_cells c = [(i, j). i \<leftarrow> py_range (height c), j \<leftarrow> py_range (width c)]"

text \<open>A coordinate inside the shape of the grid.\<close>

definition in_grid :: "city \<Rightarrow> coord \<Rightarrow> bool" where
  "in_grid c p = (0 \<le> fst p \<and> fst p < height c \<and> 0 \<le> snd p \<and> snd p < width c)"

text \<open>The destination that a call of \<open>relocate_agent\<close> on \<open>c\<close> draws from \<open>rs\<close>.\<close>

definition destination :: "city \<Rightarrow> rng \<Rightarrow> coord" where
  "destination c rs = fst (random_choice rs (vacant_cells c))"

text \<open>The contents of the grid as a multiset of cells, and its occupied coordinates.\<close>

definition cell_contents :: "city \<Rightarrow> cell multiset" where
  "cell_contents c = mset (map (grid c) (all_cells c))"

definition occupied_coords :: "city \<Rightarrow> coord list" where
  "occupied_coords c = filter (\<lambda>p. grid c p \<noteq> None) (all_cells c)"

subsection \<open>The segregation level\<close>

text \<open>
  The body of the two loops of \<open>calculate_segregation\<close> at one cell, on the pair of
  counters \<open>(total_agents, happy_agents)\<close>.
\<close>

definition count_cell :: "city \<Rightarrow> coord \<Rightarrow> nat \<times> nat \<Rightarrow> nat \<times> nat" where
  "count_cell c p acc =
     (case acc of (total_agents, happy_agents) \<Rightarrow>
        if grid c p \<noteq> None
        then (total_agents + 1,
              if is_happy c (fst p) (snd p) = Inr True then happy_agents + 1 else happy_agents)
        else (total_agents, happy_agents))"

text \<open>\<open>City.calculate_segregation\<close>.\<close>

definition calculate_segregation :: "city \<Rightarrow> rat" where
  "calculate_segregation c =
     (case fold (count_cell c) (all_cells c) (0, 0) of (total_agents, happy_agents) \<Rightarrow>
        if total_agents > 0 then of_nat happy_agents / of_nat total_agents else 1)"

subsection \<open>The simulation loop\<close>

text \<open>The list \<open>unhappy_agents\<close> that an iteration of \<open>run_simulation\<close> builds first.\<close>

definition unhappy_agents :: "city \<Rightarrow> coord list" where
  "unhappy_agents c =
     [(i, j). i \<leftarrow> py_range (height c), j \<leftarrow> py_range (width c),
        grid c (i, j) \<noteq> None \<and> is_happy c i j = Inr False]"

text \<open>The loop \<open>for x, y in unhappy_agents: self.relocate_agent(x, y)\<close>.\<close>

fun relocate_each :: "city \<Rightarrow> rng \<Rightarrow> coord list \<Rightarrow> error + city \<times> rng" where
  "relocate_each c rs [] = Inr (c, rs)"
| "relocate_each c rs ((x, y) # ps) =
     (case relocate_agent c rs x y of
        Inl e \<Rightarrow> Inl e
      | Inr (c', rs') \<Rightarrow> relocate_each c' rs' ps)"

text \<open>
  How the \<open>for\<close> loop of \<open>run_simulation\<close> ends: by its \<open>break\<close> (no unhappy agent was
  found) or because \<open>range(max_iterations)\<close> is used up.
\<close>

datatype outcome = Converged | BudgetExhausted

record run_result =
  final_city :: city
  final_rng :: rng
  iterations :: nat
  ended :: outcome

text \<open>
  The loop of \<open>run_simulation\<close> with \<open>n\<close> iterations left and \<open>it\<close> iterations done. The
  report and the plot of each iteration are not modelled.
\<close>

fun simulation_loop :: "nat \<Rightarrow> nat \<Rightarrow> city \<Rightarrow> rng \<Rightarrow> error + run_result" where
  "simulation_loop 0 it c rs =
     Inr \<lparr>final_city = c, final_rng = rs, iterations = it, ended = BudgetExhausted\<rparr>"
| "simulation_loop (Suc n) it c rs =
     (let unhappy = unhappy_agents c in
      if unhappy = []
      then Inr \<lparr>final_city = c, final_rng = rs, iterations = it, ended = Converged\<rparr>
      else (case relocate_each c rs unhappy of
              Inl e \<Rightarrow> Inl e
            | Inr (c', rs') \<Rightarrow> simulation_loop n (Suc it) c' rs'))"

text \<open>\<open>City.run_simulation\<close>: \<open>range(max_iterations)\<close> is empty for a negative argument.\<close>

definition run_simulation :: "city \<Rightarrow> rng \<Rightarrow> int \<Rightarrow> error + run_result" where
  "run_simulation c rs max_iterations = simulation_loop (nat max_iterations) 0 c rs"

subsection \<open>Construction\<close>










subsection \<open>The satisfaction rule in the words of the specification\<close>

text \<open>
  The neighbour cells of \<open>(r, k)\<close>: the cells at row and column offsets in \<open>{-1, 0, 1}\<close>,
  the cell itself excluded, clipped to the bounds of the grid.
\<close>

definition neighbor_coords :: "city \<Rightarrow> int \<Rightarrow> int \<Rightarrow> coord set" where
  "neighbor_coords c r k =
     {(r', k'). \<bar>r' - r\<bar> \<le> 1 \<and> \<bar>k' - k\<bar> \<le> 1 \<and> (r', k') \<noteq> (r, k)
        \<and> 0 \<le> r' \<and> r' < height c \<and> 0 \<le> k' \<and> k' < width c}"

text \<open>
  \<open>isSatisfied\<close> as section 4.2 of the specification words it: an empty cell is
  satisfied; an occupied cell with no occupied neighbour is satisfied; otherwise the
  share of same-category neighbours among the occupied ones is compared (inclusively)
  with the threshold.
\<close>

definition isSatisfied :: "city \<Rightarrow> int \<Rightarrow> int \<Rightarrow> rat \<Rightarrow> bool" where
  "isSatisfied c r k threshold =
     (case grid c (r, k) of
        None \<Rightarrow> True
      | Some a \<Rightarrow>
          (let similar = card {p \<in> neighbor_coords c r k.
                                 \<exists>n. grid c p = Some n \<and> agent_type n = agent_type a};
               occupiedNeighbors = card {p \<in> neighbor_coords c r k. grid c p \<noteq> None}
           in if occupiedNeighbors = 0 then True
              else threshold \<le> of_nat similar / of_nat occupiedNeighbors))"

subsection \<open>Example cities\<close>

text \<open>A 1 x 1 grid holding one red agent: no vacant cell.\<close>

definition full_city :: city where
  "full_city =
     \<lparr>width = 1, height = 1, occupation_percentage = 1, discr_attr_percentage = 1,
      discrimination_rate = 0,
      grid = (\<lambda>_. None)((0, 0) := Some (Agent ''R'')), moved_agents = {}\<rparr>"

text \<open>
  One row of four cells, \<open>R B B _\<close>, with threshold 1: what
  \<open>City(4, 1, 0.75, 0.34, 1.0)\<close> builds under one of the possible shuffles.
\<close>

definition line_city :: city where
  "line_city =
     \<lparr>width = 4, height = 1, occupation_percentage = 3 / 4, discr_attr_percentage = 34 / 100,
      discrimination_rate = 1,
      grid = (\<lambda>_. None)((0, 0) := Some (Agent ''R''), (0, 1) := Some (Agent ''B''),
                         (0, 2) := Some (Agent ''B'')),
      moved_agents = {}\<rparr>"

text \<open>
  A city of one row of four cells with threshold 1, described by the contents of its
  cells from left to right and by its moved set.
\<close>

definition row4 :: "city \<Rightarrow> cell list \<Rightarrow> coord set \<Rightarrow> bool" where
  "row4 c cells moved \<longleftrightarrow>
     width c = 4 \<and> height c = 1 \<and> discrimination_rate c = 1
     \<and> map (grid c) [(0, 0), (0, 1), (0, 2), (0, 3)] = cells \<and> moved_agents c = moved"

section \<open>Basic facts\<close>

lemma set_py_range: "set (py_range n) = {i. 0 \<le> i \<and> i < n}"
  by (auto simp: py_range_def)

lemma distinct_py_range: "distinct (py_range n)"
  by (simp add: py_range_def)

lemma all_cells_product:
  "all_cells c = List.product (py_range (height c)) (py_range (width c))"
  by (simp add: all_cells_def product_concat_map)

lemma set_all_cells: "set (all_cells c) = {p. in_grid c p}"
  by (auto simp: all_cells_def set_py_range in_grid_def)

lemma distinct_all_cells: "distinct (all_cells c)"
  by (simp add: all_cells_product distinct_product distinct_py_range)

lemma concat_if_filter:
  "concat (map (\<lambda>j. if P j then [f j] else []) xs) = map f (filter P xs)"
  by (induction xs) simp_all

lemma vacant_cells_filter: "vacant_cells c = filter (\<lambda>p. grid c p = None) (all_cells c)"
  by (simp add: vacant_cells_def all_cells_def concat_if_filter filter_concat comp_def
      filter_map)

lemma set_vacant_cells: "set (vacant_cells c) = {p. in_grid c p \<and> grid c p = None}"
  by (auto simp: vacant_cells_filter set_all_cells)

lemma random_choice_mem: "xs \<noteq> [] \<Longrightarrow> fst (random_choice rs xs) \<in> set xs"
  by (simp add: random_choice_def)

lemma grid_index_in_grid: "in_grid c (x, y) \<Longrightarrow> grid_index c x y = Inr (x, y)"
  by (simp add: grid_index_def np_index_def in_grid_def)

lemma destination_vacant:
  "vacant_cells c \<noteq> [] \<Longrightarrow>
     in_grid c (destination c rs) \<and> grid c (destination c rs) = None"
  using random_choice_mem [of "vacant_cells c" rs]
  by (simp add: destination_def set_vacant_cells)

lemma relocate_agent_in_grid:
  assumes "in_grid c (x, y)" "vacant_cells c \<noteq> []"
  shows "relocate_agent c rs x y =
    Inr (c\<lparr>moved_agents := insert (x, y) (moved_agents c),
           grid := (grid c)(destination c rs := grid c (x, y), (x, y) := None)\<rparr>, stl rs)"
  using assms
  by (simp add: relocate_agent_def grid_index_in_grid destination_def random_choice_def
      Let_def)

lemma image_mset_upd_notin: "p \<notin> set xs \<Longrightarrow> image_mset (g(p := v)) (mset xs) = image_mset g (mset xs)"
  by (rule image_mset_cong) auto

lemma image_mset_upd:
  "distinct xs \<Longrightarrow> p \<in> set xs \<Longrightarrow>
     image_mset (g(p := v)) (mset xs) = image_mset g (mset xs) - {#g p#} + {#v#}"
  by (induction xs) (auto simp: image_mset_upd_notin)

lemma image_mset_move:
  assumes "distinct xs" "d \<in> set xs" "p \<in> set xs" "g d = None"
  shows "image_mset (g(d := g p, p := None)) (mset xs) = image_mset g (mset xs)"
proof (cases "d = p")
  case True
  with assms show ?thesis by (simp add: fun_upd_idem)
next
  case False
  have "None \<in># image_mset g (mset xs)"
    using assms(2,4) by (metis image_eqI set_image_mset set_mset_mset)
  moreover have "g p \<in># image_mset g (mset xs)"
    using assms(3) by simp
  ultimately show ?thesis
    using assms False by (simp add: image_mset_upd)
qed

lemma grid_index_Inr: "grid_index c x y = Inr p \<Longrightarrow> in_grid c p"
  by (auto simp: grid_index_def np_index_def in_grid_def split: option.splits if_splits)

lemma relocate_agent_frame:
  assumes "relocate_agent c rs x y = Inr (c', rs')"
  shows "height c' = height c \<and> width c' = width c
       \<and> discrimination_rate c' = discrimination_rate c
       \<and> cell_contents c' = cell_contents c"
proof (cases "vacant_cells c = []")
  case True
  with assms show ?thesis by (simp add: relocate_agent_def)
next
  case False
  from assms False obtain p where p: "grid_index c x y = Inr p"
    and c': "c' = c\<lparr>moved_agents := insert (x, y) (moved_agents c),
           grid := (grid c)(destination c rs := grid c p, p := None)\<rparr>"
    by (auto simp: relocate_agent_def Let_def destination_def random_choice_def split: sum.splits)
  from destination_vacant [OF False, of rs] grid_index_Inr [OF p]
  have "image_mset ((grid c)(destination c rs := grid c p, p := None)) (mset (all_cells c))
      = image_mset (grid c) (mset (all_cells c))"
    by (intro image_mset_move) (simp_all add: distinct_all_cells set_all_cells)
  then show ?thesis
    by (simp add: c' cell_contents_def all_cells_def)
qed

lemma length_occupied_coords:
  "length (occupied_coords c) = size (filter_mset (\<lambda>v. v \<noteq> None) (cell_contents c))"
proof -
  have "length (occupied_coords c) = size (mset (occupied_coords c))"
    by simp
  also have "\<dots> = size (filter_mset (\<lambda>v. v \<noteq> None) (cell_contents c))"
    unfolding occupied_coords_def cell_contents_def
    by (simp add: filter_mset_image_mset)
  finally show ?thesis .
qed


lemma relocate_agent_total:
  "in_grid c (x, y) \<Longrightarrow> \<exists>c' rs'. relocate_agent c rs x y = Inr (c', rs')"
proof (cases "vacant_cells c = []")
  case True
  then show ?thesis by (simp add: relocate_agent_def)
next
  case False
  assume "in_grid c (x, y)"
  from relocate_agent_in_grid [OF this False] show ?thesis by blast
qed

lemma relocate_each_frame:
  assumes "\<forall>p \<in> set ps. in_grid c p"
  shows "\<exists>c' rs'. relocate_each c rs ps = Inr (c', rs')
       \<and> height c' = height c \<and> width c' = width c
       \<and> discrimination_rate c' = discrimination_rate c
       \<and> cell_contents c' = cell_contents c"
  using assms
proof (induction ps arbitrary: c rs)
  case Nil
  then show ?case by simp
next
  case (Cons p ps)
  obtain x y where p: "p = (x, y)" by (cases p)
  from Cons.prems p have "in_grid c (x, y)" by simp
  from relocate_agent_total [OF this] obtain c1 rs1
    where r: "relocate_agent c rs x y = Inr (c1, rs1)" by blast
  note f = relocate_agent_frame [OF r]
  from Cons.prems f have "\<forall>q \<in> set ps. in_grid c1 q"
    by (simp add: in_grid_def)
  from Cons.IH [OF this, of rs1] f r p show ?case
    by auto
qed

lemma set_unhappy_agents: "set (unhappy_agents c) \<subseteq> {p. in_grid c p \<and> grid c p \<noteq> None}"
  by (auto simp: unhappy_agents_def set_py_range in_grid_def)

lemma simulation_loop_frame:
  "\<exists>r. simulation_loop n it c rs = Inr r
       \<and> cell_contents (final_city r) = cell_contents c"
proof (induction n arbitrary: it c rs)
  case 0
  show ?case by simp
next
  case (Suc n)
  show ?case
  proof (cases "unhappy_agents c = []")
    case True
    then show ?thesis by simp
  next
    case False
    have "\<forall>p \<in> set (unhappy_agents c). in_grid c p"
      using set_unhappy_agents [of c] by auto
    from relocate_each_frame [OF this, of rs] obtain c' rs'
      where r: "relocate_each c rs (unhappy_agents c) = Inr (c', rs')"
        and cc: "cell_contents c' = cell_contents c" by blast
    from Suc.IH [of "Suc it" c' rs'] False r cc show ?thesis
      by (auto simp: Let_def)
  qed
qed

lemma line_city_vacant: "vacant_cells line_city = [(0, 3)]"
  by (simp add: vacant_cells_def line_city_def py_range_def upto.simps)

lemma unhappy_agents_filter:
  "unhappy_agents c =
     filter (\<lambda>p. grid c p \<noteq> None \<and> is_happy c (fst p) (snd p) = Inr False) (all_cells c)"
  by (simp add: unhappy_agents_def all_cells_def concat_if_filter filter_concat comp_def
      filter_map)

lemma distinct_unhappy_agents: "distinct (unhappy_agents c)"
  by (simp add: unhappy_agents_filter distinct_all_cells)


lemma unhappy_agents_occupied:
  "\<forall>p \<in> set (unhappy_agents c). in_grid c p \<and> grid c p \<noteq> None"
  using set_unhappy_agents [of c] by auto

lemma relocate_agent_occupied:
  assumes "in_grid c (x, y)" "grid c (x, y) \<noteq> None"
  shows "\<exists>c1 rs1. relocate_agent c rs x y = Inr (c1, rs1)
       \<and> height c1 = height c \<and> width c1 = width c
       \<and> (\<forall>q. q \<noteq> (x, y) \<and> grid c q \<noteq> None \<longrightarrow> grid c1 q = grid c q)
       \<and> moved_agents c1 =
           (if vacant_cells c = [] then moved_agents c else insert (x, y) (moved_agents c))
       \<and> (vacant_cells c1 = [] \<longleftrightarrow> vacant_cells c = [])"
proof (cases "vacant_cells c = []")
  case True
  then show ?thesis by (simp add: relocate_agent_def)
next
  case False
  define c1 where "c1 = c\<lparr>moved_agents := insert (x, y) (moved_agents c),
           grid := (grid c)(destination c rs := grid c (x, y), (x, y) := None)\<rparr>"
  have r: "relocate_agent c rs x y = Inr (c1, stl rs)"
    using relocate_agent_in_grid [OF assms(1) False, of rs] by (simp add: c1_def)
  have dv: "grid c (destination c rs) = None"
    using destination_vacant [OF False, of rs] by simp
  have keep: "\<forall>q. q \<noteq> (x, y) \<and> grid c q \<noteq> None \<longrightarrow> grid c1 q = grid c q"
    using dv by (auto simp: c1_def)
  have "in_grid c1 (x, y) \<and> grid c1 (x, y) = None"
    using assms(1) by (simp add: c1_def in_grid_def)
  then have "(x, y) \<in> set (vacant_cells c1)"
    by (simp add: set_vacant_cells)
  then have "vacant_cells c1 \<noteq> []"
    by auto
  with r keep False show ?thesis
    by (simp add: c1_def)
qed

lemma relocate_each_append:
  "relocate_each c rs (ps @ qs) =
     (case relocate_each c rs ps of
        Inl e \<Rightarrow> Inl e
      | Inr (c', rs') \<Rightarrow> relocate_each c' rs' qs)"
  by (induction c rs ps rule: relocate_each.induct) (auto split: sum.splits)

lemma relocate_each_occupied:
  assumes "distinct ps" "\<forall>p \<in> set ps. in_grid c p \<and> grid c p \<noteq> None"
  shows "\<exists>c' rs'. relocate_each c rs ps = Inr (c', rs')
       \<and> height c' = height c \<and> width c' = width c
       \<and> (\<forall>q. q \<notin> set ps \<and> grid c q \<noteq> None \<longrightarrow> grid c' q = grid c q)
       \<and> moved_agents c' =
           (if vacant_cells c = [] then moved_agents c else moved_agents c \<union> set ps)"
  using assms
proof (induction ps arbitrary: c rs)
  case Nil
  then show ?case by simp
next
  case (Cons p ps)
  obtain x y where p: "p = (x, y)" by (cases p)
  from Cons.prems p have "in_grid c (x, y)" "grid c (x, y) \<noteq> None" by simp_all
  from relocate_agent_occupied [OF this, of rs] obtain c1 rs1
    where r: "relocate_agent c rs x y = Inr (c1, rs1)"
      and hw: "height c1 = height c" "width c1 = width c"
      and keep: "\<forall>q. q \<noteq> (x, y) \<and> grid c q \<noteq> None \<longrightarrow> grid c1 q = grid c q"
      and mv: "moved_agents c1 =
           (if vacant_cells c = [] then moved_agents c else insert (x, y) (moved_agents c))"
      and vc: "vacant_cells c1 = [] \<longleftrightarrow> vacant_cells c = []"
    by blast
  have d: "distinct ps" and nin: "(x, y) \<notin> set ps"
    using Cons.prems(1) p by simp_all
  have occ: "\<forall>q \<in> set ps. in_grid c1 q \<and> grid c1 q \<noteq> None"
  proof
    fix q assume q: "q \<in> set ps"
    with Cons.prems(2) have "in_grid c q" "grid c q \<noteq> None" by simp_all
    moreover from q nin have "q \<noteq> (x, y)" by auto
    ultimately show "in_grid c1 q \<and> grid c1 q \<noteq> None"
      using keep [rule_format, of q] hw by (simp add: in_grid_def)
  qed
  from Cons.IH [OF d occ, of rs1] obtain c' rs'
    where e: "relocate_each c1 rs1 ps = Inr (c', rs')"
      and hw': "height c' = height c1" "width c' = width c1"
      and keep': "\<forall>q. q \<notin> set ps \<and> grid c1 q \<noteq> None \<longrightarrow> grid c' q = grid c1 q"
      and mv': "moved_agents c' =
           (if vacant_cells c1 = [] then moved_agents c1 else moved_agents c1 \<union> set ps)"
    by blast
  have "relocate_each c rs (p # ps) = Inr (c', rs')"
    using r e p by simp
  moreover have "\<forall>q. q \<notin> set (p # ps) \<and> grid c q \<noteq> None \<longrightarrow> grid c' q = grid c q"
    using keep keep' p by auto
  moreover have "moved_agents c' =
      (if vacant_cells c = [] then moved_agents c else moved_agents c \<union> set (p # ps))"
    using mv mv' vc p by auto
  ultimately show ?case
    using hw hw' by simp
qed


lemma simulation_loop_bounds:
  "\<exists>r. simulation_loop n it c rs = Inr r
     \<and> it \<le> iterations r \<and> iterations r \<le> it + n
     \<and> (ended r = Converged \<longrightarrow> unhappy_agents (final_city r) = [] \<and> iterations r < it + n)
     \<and> (ended r = BudgetExhausted \<longrightarrow> iterations r = it + n)"
proof (induction n arbitrary: it c rs)
  case 0
  show ?case by simp
next
  case (Suc n)
  show ?case
  proof (cases "unhappy_agents c = []")
    case True
    then show ?thesis by simp
  next
    case False
    have "\<forall>p \<in> set (unhappy_agents c). in_grid c p"
      using set_unhappy_agents [of c] by auto
    from relocate_each_frame [OF this, of rs] obtain c' rs'
      where r: "relocate_each c rs (unhappy_agents c) = Inr (c', rs')" by blast
    from Suc.IH [of "Suc it" c' rs'] obtain res
      where "simulation_loop n (Suc it) c' rs' = Inr res"
        "Suc it \<le> iterations res" "iterations res \<le> Suc it + n"
        "ended res = Converged \<longrightarrow>
           unhappy_agents (final_city res) = [] \<and> iterations res < Suc it + n"
        "ended res = BudgetExhausted \<longrightarrow> iterations res = Suc it + n"
      by blast
    with False r show ?thesis
      by (simp add: Let_def)
  qed
qed

lemma simulation_loop_converged_mono:
  "simulation_loop n it c rs = Inr r \<Longrightarrow> ended r = Converged \<Longrightarrow>
     simulation_loop (n + k) it c rs = Inr r"
proof (induction n arbitrary: it c rs)
  case 0
  then show ?case by auto
next
  case (Suc n)
  show ?case
  proof (cases "unhappy_agents c = []")
    case True
    with Suc.prems show ?thesis by simp
  next
    case False
    with Suc.prems obtain c' rs'
      where e: "relocate_each c rs (unhappy_agents c) = Inr (c', rs')"
        and l: "simulation_loop n (Suc it) c' rs' = Inr r"
      by (auto simp: Let_def split: sum.splits)
    from Suc.IH [OF l Suc.prems(2)] e False show ?thesis
      by (simp add: Let_def)
  qed
qed

lemma simulation_loop_converged:
  "unhappy_agents c = [] \<Longrightarrow>
     simulation_loop (Suc n) it c rs =
       Inr \<lparr>final_city = c, final_rng = rs, iterations = it, ended = Converged\<rparr>"
  by simp

lemma line_city_unhappy: "unhappy_agents line_city = [(0, 0), (0, 1)]"
  by (simp add: unhappy_agents_def is_happy_def grid_index_def np_index_def
      get_neighbors_def directions_def line_city_def py_range_def upto.simps Let_def)

lemma full_city_unhappy: "unhappy_agents full_city = []"
  by (simp add: unhappy_agents_def is_happy_def grid_index_def np_index_def
      get_neighbors_def directions_def full_city_def py_range_def Let_def)

lemma get_neighbors_map:
  "get_neighbors c x y =
     map (grid c) (filter (in_grid c) (map (\<lambda>(dx, dy). (x + dx, y + dy)) directions))"
  by (simp add: get_neighbors_def directions_def in_grid_def)

lemma distinct_neighbor_list:
  "distinct (filter (in_grid c) (map (\<lambda>(dx, dy). (x + dx, y + dy)) directions))"
  by (rule distinct_filter) (simp add: directions_def)

lemma set_neighbor_list:
  "set (filter (in_grid c) (map (\<lambda>(dx, dy). (x + dx, y + dy)) directions)) =
     neighbor_coords c x y"
proof -
  have "set (map (\<lambda>(dx, dy). (x + dx, y + dy)) directions) =
      {(r, k). \<bar>r - x\<bar> \<le> 1 \<and> \<bar>k - y\<bar> \<le> 1 \<and> (r, k) \<noteq> (x, y)}" (is "?L = ?R")
  proof
    show "?L \<subseteq> ?R" by (auto simp: directions_def)
  next
    show "?R \<subseteq> ?L"
    proof
      fix p assume "p \<in> ?R"
      then obtain r k where p: "p = (r, k)"
        and b: "\<bar>r - x\<bar> \<le> 1" "\<bar>k - y\<bar> \<le> 1" "(r, k) \<noteq> (x, y)"
        by auto
      from b(1) have r: "r = x + (-1) \<or> r = x \<or> r = x + 1" by arith
      from b(2) have k: "k = y + (-1) \<or> k = y \<or> k = y + 1" by arith
      from r k b(3) show "p \<in> ?L"
        unfolding p directions_def by auto
    qed
  qed
  then show ?thesis
    by (auto simp: neighbor_coords_def in_grid_def)
qed

lemma length_filter_neighbors:
  "length (filter P (get_neighbors c x y)) = card {p \<in> neighbor_coords c x y. P (grid c p)}"
proof -
  let ?nb = "filter (in_grid c) (map (\<lambda>(dx, dy). (x + dx, y + dy)) directions)"
  have "length (filter P (get_neighbors c x y)) = length (filter (\<lambda>p. P (grid c p)) ?nb)"
    by (simp only: get_neighbors_map filter_map length_map comp_def)
  also have "\<dots> = card ({p. P (grid c p)} \<inter> set ?nb)"
    by (rule distinct_length_filter [OF distinct_neighbor_list])
  also have "{p. P (grid c p)} \<inter> set ?nb = {p \<in> neighbor_coords c x y. P (grid c p)}"
    by (auto simp only: set_neighbor_list)
  finally show ?thesis .
qed

lemma similar_to_iff: "similar_to a v \<longleftrightarrow> (\<exists>n. v = Some n \<and> agent_type n = agent_type a)"
  by (cases v) auto

lemma fold_count_cell:
  "fold (count_cell c) ps (t, h) =
     (t + length (filter (\<lambda>p. grid c p \<noteq> None) ps),
      h + length (filter (\<lambda>p. is_happy c (fst p) (snd p) = Inr True)
                    (filter (\<lambda>p. grid c p \<noteq> None) ps)))"
  by (induction ps arbitrary: t h) (simp_all add: count_cell_def)

lemma line_city_happy_01: "is_happy line_city 0 1 = Inr False"
  by (simp add: is_happy_def grid_index_def np_index_def
      get_neighbors_def directions_def line_city_def Let_def)

lemma full_city_occupied: "occupied_coords full_city = [(0, 0)]"
  by (simp add: occupied_coords_def all_cells_def full_city_def py_range_def)

lemma full_city_happy: "is_happy full_city 0 0 = Inr True"
  by (simp add: is_happy_def grid_index_def np_index_def
      get_neighbors_def directions_def full_city_def Let_def)










lemma row4_cells: "all_cells c = [(0, 0), (0, 1), (0, 2), (0, 3)]" if "row4 c cells m"
  using that by (simp add: row4_def all_cells_def py_range_def upto.simps)

lemma row4_vacant:
  assumes "row4 c [a, b, d, e] m"
  shows "vacant_cells c = filter (\<lambda>p. grid c p = None) [(0, 0), (0, 1), (0, 2), (0, 3)]"
  by (simp only: vacant_cells_filter row4_cells [OF assms])

lemma row4_relocate:
  assumes "row4 c cells m" "vacant_cells c = [d]" "p \<in> set (all_cells c)"
  shows "\<exists>c'. relocate_agent c rs (fst p) (snd p) = Inr (c', stl rs)
       \<and> row4 c' (map ((grid c)(d := grid c p, p := None)) [(0, 0), (0, 1), (0, 2), (0, 3)])
              (insert p m)"
proof -
  have ig: "in_grid c (fst p, snd p)"
    using assms(3) by (simp add: set_all_cells)
  have ne: "vacant_cells c \<noteq> []"
    using assms(2) by simp
  have d: "destination c rs = d"
    by (simp add: destination_def random_choice_def assms(2))
  from relocate_agent_in_grid [OF ig ne, of rs] assms(1) show ?thesis
    by (simp add: d row4_def)
qed

lemma row4_unhappy_first:
  assumes "row4 c [Some (Agent ''R''), Some (Agent ''B''), Some (Agent ''B''), None] m"
  shows "unhappy_agents c = [(0, 0), (0, 1)]"
  using assms
  by (simp add: row4_def unhappy_agents_def is_happy_def grid_index_def np_index_def
      get_neighbors_def directions_def py_range_def upto.simps Let_def)

lemma row4_unhappy_second:
  assumes "row4 c [Some (Agent ''B''), None, Some (Agent ''B''), Some (Agent ''R'')] m"
  shows "unhappy_agents c = [(0, 2), (0, 3)]"
  using assms
  by (simp add: row4_def unhappy_agents_def is_happy_def grid_index_def np_index_def
      get_neighbors_def directions_def py_range_def upto.simps Let_def)

lemma row4_sweep_first:
  assumes "row4 c [Some (Agent ''R''), Some (Agent ''B''), Some (Agent ''B''), None] m"
  shows "\<exists>c'. relocate_each c rs [(0, 0), (0, 1)] = Inr (c', stl (stl rs))
       \<and> row4 c' [Some (Agent ''B''), None, Some (Agent ''B''), Some (Agent ''R'')]
            (insert (0, 1) (insert (0, 0) m))"
proof -
  have g: "grid c (0, 0) = Some (Agent ''R'')" "grid c (0, 1) = Some (Agent ''B'')"
    "grid c (0, 2) = Some (Agent ''B'')" "grid c (0, 3) = None"
    using assms by (simp_all add: row4_def)
  have v: "vacant_cells c = [(0, 3)]"
    by (simp add: row4_vacant [OF assms] g)
  have p: "(0, 0) \<in> set (all_cells c)"
    by (simp add: row4_cells [OF assms])
  from row4_relocate [OF assms v p, of rs] obtain c1
    where r1: "relocate_agent c rs 0 0 = Inr (c1, stl rs)"
      and c1: "row4 c1 [None, Some (Agent ''B''), Some (Agent ''B''), Some (Agent ''R'')]
                (insert (0, 0) m)"
    by (auto simp: g)
  have g1: "grid c1 (0, 0) = None" "grid c1 (0, 1) = Some (Agent ''B'')"
    "grid c1 (0, 2) = Some (Agent ''B'')" "grid c1 (0, 3) = Some (Agent ''R'')"
    using c1 by (simp_all add: row4_def)
  have v1: "vacant_cells c1 = [(0, 0)]"
    by (simp add: row4_vacant [OF c1] g1)
  have p1: "(0, 1) \<in> set (all_cells c1)"
    by (simp add: row4_cells [OF c1])
  from row4_relocate [OF c1 v1 p1, of "stl rs"] obtain c2
    where r2: "relocate_agent c1 (stl rs) 0 1 = Inr (c2, stl (stl rs))"
      and c2: "row4 c2 [Some (Agent ''B''), None, Some (Agent ''B''), Some (Agent ''R'')]
                (insert (0, 1) (insert (0, 0) m))"
    by (auto simp: g1)
  from r1 r2 c2 show ?thesis
    by simp
qed

lemma row4_sweep_second:
  assumes "row4 c [Some (Agent ''B''), None, Some (Agent ''B''), Some (Agent ''R'')] m"
  shows "\<exists>c'. relocate_each c rs [(0, 2), (0, 3)] = Inr (c', stl (stl rs))
       \<and> row4 c' [Some (Agent ''B''), Some (Agent ''B''), Some (Agent ''R''), None]
            (insert (0, 3) (insert (0, 2) m))"
proof -
  have g: "grid c (0, 0) = Some (Agent ''B'')" "grid c (0, 1) = None"
    "grid c (0, 2) = Some (Agent ''B'')" "grid c (0, 3) = Some (Agent ''R'')"
    using assms by (simp_all add: row4_def)
  have v: "vacant_cells c = [(0, 1)]"
    by (simp add: row4_vacant [OF assms] g)
  have p: "(0, 2) \<in> set (all_cells c)"
    by (simp add: row4_cells [OF assms])
  from row4_relocate [OF assms v p, of rs] obtain c1
    where r1: "relocate_agent c rs 0 2 = Inr (c1, stl rs)"
      and c1: "row4 c1 [Some (Agent ''B''), Some (Agent ''B''), None, Some (Agent ''R'')]
                (insert (0, 2) m)"
    by (auto simp: g)
  have g1: "grid c1 (0, 0) = Some (Agent ''B'')" "grid c1 (0, 1) = Some (Agent ''B'')"
    "grid c1 (0, 2) = None" "grid c1 (0, 3) = Some (Agent ''R'')"
    using c1 by (simp_all add: row4_def)
  have v1: "vacant_cells c1 = [(0, 2)]"
    by (simp add: row4_vacant [OF c1] g1)
  have p1: "(0, 3) \<in> set (all_cells c1)"
    by (simp add: row4_cells [OF c1])
  from row4_relocate [OF c1 v1 p1, of "stl rs"] obtain c2
    where r2: "relocate_agent c1 (stl rs) 0 3 = Inr (c2, stl (stl rs))"
      and c2: "row4 c2 [Some (Agent ''B''), Some (Agent ''B''), Some (Agent ''R''), None]
                (insert (0, 3) (insert (0, 2) m))"
    by (auto simp: g1)
  from r1 r2 c2 show ?thesis
    by simp
qed

lemma row4_line_city:
  "row4 line_city [Some (Agent ''R''), Some (Agent ''B''), Some (Agent ''B''), None] {}"
  by (simp add: row4_def line_city_def)

lemma full_city_vacant: "vacant_cells full_city = []"
  by (simp add: vacant_cells_def full_city_def py_range_def)

section \<open>Relocation on a full grid\<close>

text \<open>
  Claim C6. On a grid with no empty cell, \<open>relocate_agent\<close> on an occupied coordinate is
  a no-op and not an error: the city (grid and moved set) comes back unchanged, and no
  random number is drawn.
\<close>

theorem relocate_full_grid_noop:
  assumes "vacant_cells c = []"
    and "0 \<le> x" "x < height c" "0 \<le> y" "y < width c"
    and "grid c (x, y) \<noteq> None"
  shows "relocate_agent c rs x y = Inr (c, rs)"
  using assms by (simp add: relocate_agent_def)

theorem relocate_full_grid_noop_witness:
  "vacant_cells full_city = [] \<and> grid full_city (0, 0) \<noteq> None
   \<and> relocate_agent full_city (sconst 0) 0 0 = Inr (full_city, sconst 0)"
proof -
  have g: "grid full_city (0, 0) \<noteq> None"
    by (simp add: full_city_def)
  have b: "(0::int) \<le> 0" "0 < height full_city" "0 < width full_city"
    by (simp_all add: full_city_def)
  from relocate_full_grid_noop [OF full_city_vacant b(1) b(2) b(1) b(3) g] full_city_vacant g
  show ?thesis by simp
qed

section \<open>Relocation from an empty cell\<close>

text \<open>
  Claim C10. When \<open>relocate_agent\<close> is called on an in-bounds coordinate whose cell is
  empty (so the grid has an empty cell), the grid is left as it was, since an empty
  destination is assigned \<open>None\<close> again, and yet the coordinate enters \<open>moved_agents\<close>;
  one random number is drawn.
\<close>

theorem relocate_empty_source:
  assumes "0 \<le> x" "x < height c" "0 \<le> y" "y < width c"
    and "grid c (x, y) = None"
  shows "relocate_agent c rs x y =
    Inr (c\<lparr>moved_agents := insert (x, y) (moved_agents c)\<rparr>, stl rs)"
proof -
  have ig: "in_grid c (x, y)"
    using assms by (simp add: in_grid_def)
  with assms have "(x, y) \<in> set (vacant_cells c)"
    by (simp add: set_vacant_cells)
  then have ne: "vacant_cells c \<noteq> []"
    by auto
  from destination_vacant [OF ne] have "grid c (destination c rs) = None"
    by simp
  then have "(grid c)(destination c rs := grid c (x, y), (x, y) := None) = grid c"
    using assms(5) by (simp add: fun_upd_idem)
  with relocate_agent_in_grid [OF ig ne] show ?thesis
    by simp
qed

theorem relocate_empty_source_witness:
  "grid line_city (0, 3) = None
   \<and> relocate_agent line_city (sconst 0) 0 3 =
       Inr (line_city\<lparr>moved_agents := {(0, 3)}\<rparr>, sconst 0)"
proof -
  have b: "(0::int) \<le> 0" "0 < height line_city" "(0::int) \<le> 3" "3 < width line_city"
    by (simp_all add: line_city_def)
  have g: "grid line_city (0, 3) = None"
    by (simp add: line_city_def)
  have m: "moved_agents line_city = {}"
    by (simp add: line_city_def)
  from relocate_empty_source [OF b g, of "sconst 0"] g m show ?thesis
    by simp
qed

section \<open>The relocation invariant\<close>

text \<open>
  Claim C5. On a grid with an empty cell, \<open>relocate_agent\<close> on an occupied in-bounds
  coordinate \<open>(x, y)\<close> leaves \<open>(x, y)\<close> empty, puts the agent into exactly one cell that
  was empty before, and keeps the multiset of cell contents (hence the agents'
  categories) and the number of occupied cells. The whole run of the simulation keeps
  both as well, whatever the random source and the iteration budget.
\<close>

theorem relocation_invariant:
  assumes "0 \<le> x" "x < height c" "0 \<le> y" "y < width c"
    and "grid c (x, y) = Some a"
    and "vacant_cells c \<noteq> []"
  shows "(\<exists>c'. relocate_agent c rs x y = Inr (c', stl rs)
           \<and> grid c' (x, y) = None
           \<and> (\<exists>!d. in_grid c d \<and> grid c d = None \<and> grid c' d = Some a)
           \<and> cell_contents c' = cell_contents c
           \<and> length (occupied_coords c') = length (occupied_coords c))
       \<and> (\<forall>rs0 m. \<exists>r. run_simulation c rs0 m = Inr r
           \<and> cell_contents (final_city r) = cell_contents c
           \<and> length (occupied_coords (final_city r)) = length (occupied_coords c))"
proof
  define d where "d = destination c rs"
  define c' where "c' = c\<lparr>moved_agents := insert (x, y) (moved_agents c),
           grid := (grid c)(d := grid c (x, y), (x, y) := None)\<rparr>"
  have ig: "in_grid c (x, y)"
    using assms by (simp add: in_grid_def)
  have r: "relocate_agent c rs x y = Inr (c', stl rs)"
    using relocate_agent_in_grid [OF ig assms(6), of rs] by (simp add: c'_def d_def)
  have dv: "in_grid c d" "grid c d = None"
    using destination_vacant [OF assms(6), of rs] by (simp_all add: d_def)
  with assms(5) have ne: "d \<noteq> (x, y)" by auto
  have g1: "grid c' (x, y) = None"
    by (simp add: c'_def)
  have g2: "grid c' d = Some a"
    using ne assms(5) by (simp add: c'_def)
  have g3: "grid c' q = grid c q" if "q \<noteq> d" "q \<noteq> (x, y)" for q
    using that by (simp add: c'_def)
  have uniq: "\<exists>!q. in_grid c q \<and> grid c q = None \<and> grid c' q = Some a"
  proof (rule ex1I [of _ d])
    show "in_grid c d \<and> grid c d = None \<and> grid c' d = Some a"
      using dv g2 by simp
  next
    fix q assume q: "in_grid c q \<and> grid c q = None \<and> grid c' q = Some a"
    show "q = d"
    proof (rule ccontr)
      assume "q \<noteq> d"
      moreover from q g1 have "q \<noteq> (x, y)" by auto
      ultimately have "grid c' q = grid c q" by (rule g3)
      with q show False by auto
    qed
  qed
  note f = relocate_agent_frame [OF r]
  from f have "length (occupied_coords c') = length (occupied_coords c)"
    by (simp add: length_occupied_coords)
  with r g1 uniq f
  show "\<exists>c'. relocate_agent c rs x y = Inr (c', stl rs)
           \<and> grid c' (x, y) = None
           \<and> (\<exists>!d. in_grid c d \<and> grid c d = None \<and> grid c' d = Some a)
           \<and> cell_contents c' = cell_contents c
           \<and> length (occupied_coords c') = length (occupied_coords c)"
    by blast
next
  show "\<forall>rs0 m. \<exists>r. run_simulation c rs0 m = Inr r
           \<and> cell_contents (final_city r) = cell_contents c
           \<and> length (occupied_coords (final_city r)) = length (occupied_coords c)"
  proof (intro allI)
    fix rs0 m
    from simulation_loop_frame [of "nat m" 0 c rs0] obtain r
      where "run_simulation c rs0 m = Inr r" "cell_contents (final_city r) = cell_contents c"
      by (auto simp: run_simulation_def)
    then show "\<exists>r. run_simulation c rs0 m = Inr r
           \<and> cell_contents (final_city r) = cell_contents c
           \<and> length (occupied_coords (final_city r)) = length (occupied_coords c)"
      by (auto simp: length_occupied_coords)
  qed
qed

theorem relocation_invariant_witness:
  "grid line_city (0, 0) = Some (Agent ''R'') \<and> vacant_cells line_city \<noteq> []
   \<and> (\<exists>c'. relocate_agent line_city (sconst 0) 0 0 = Inr (c', sconst 0)
           \<and> grid c' (0, 0) = None
           \<and> cell_contents c' = cell_contents line_city
           \<and> length (occupied_coords c') = length (occupied_coords line_city))"
proof -
  have b: "(0::int) \<le> 0" "0 < height line_city" "(0::int) \<le> 0" "0 < width line_city"
    by (simp_all add: line_city_def)
  have g: "grid line_city (0, 0) = Some (Agent ''R'')"
    by (simp add: line_city_def)
  have v: "vacant_cells line_city \<noteq> []"
    by (simp add: line_city_vacant)
  from relocation_invariant [OF b g v, of "sconst 0"] g v show ?thesis
    by auto
qed

section \<open>The sweep of one iteration\<close>

text \<open>
  Claim C9. Within a sweep, every coordinate of the unhappy snapshot is still occupied
  when \<open>relocate_agent\<close> is invoked on it. The state at the \<open>i\<close>-th call is the result
  of the loop over the first \<open>i\<close> coordinates; the rest of the loop continues from it.
  In that state the \<open>i\<close>-th coordinate is in bounds and holds the very agent it held
  when the snapshot was taken: earlier calls vacate their own sources and fill cells
  that were empty.
\<close>

theorem snapshot_stays_occupied:
  assumes "i < length (unhappy_agents c)"
  shows "\<exists>ci rsi. relocate_each c rs (take i (unhappy_agents c)) = Inr (ci, rsi)
       \<and> relocate_each c rs (unhappy_agents c) = relocate_each ci rsi (drop i (unhappy_agents c))
       \<and> in_grid ci (unhappy_agents c ! i)
       \<and> grid ci (unhappy_agents c ! i) \<noteq> None
       \<and> grid ci (unhappy_agents c ! i) = grid c (unhappy_agents c ! i)"
proof -
  let ?us = "unhappy_agents c"
  have mem: "?us ! i \<in> set ?us"
    using assms by simp
  have d: "distinct (take i ?us)"
    by (simp add: distinct_unhappy_agents)
  have occ: "\<forall>p \<in> set (take i ?us). in_grid c p \<and> grid c p \<noteq> None"
    using unhappy_agents_occupied [of c] by (auto dest: in_set_takeD)
  have nin: "?us ! i \<notin> set (take i ?us)"
    using assms distinct_unhappy_agents [of c]
    by (metis append_take_drop_id distinct_append disjoint_iff_not_equal
        Cons_nth_drop_Suc list.set_intros(1))
  from relocate_each_occupied [OF d occ, of rs] obtain ci rsi
    where e: "relocate_each c rs (take i ?us) = Inr (ci, rsi)"
      and hw: "height ci = height c" "width ci = width c"
      and keep: "\<forall>q. q \<notin> set (take i ?us) \<and> grid c q \<noteq> None \<longrightarrow> grid ci q = grid c q"
    by blast
  have here: "in_grid c (?us ! i)" "grid c (?us ! i) \<noteq> None"
    using unhappy_agents_occupied [of c] mem by simp_all
  have "relocate_each c rs (take i ?us @ drop i ?us) = relocate_each ci rsi (drop i ?us)"
    using e by (simp only: relocate_each_append sum.case prod.case)
  then have "relocate_each c rs ?us = relocate_each ci rsi (drop i ?us)"
    by simp
  moreover have "grid ci (?us ! i) = grid c (?us ! i)"
    using keep [rule_format, of "?us ! i"] nin here by simp
  moreover have "in_grid ci (?us ! i)"
    using here hw by (simp add: in_grid_def)
  ultimately show ?thesis
    using e here by auto
qed

theorem snapshot_stays_occupied_witness:
  "(1::nat) < length (unhappy_agents line_city)
   \<and> (\<exists>ci rsi. relocate_each line_city (sconst 0) [(0, 0)] = Inr (ci, rsi)
         \<and> grid ci (0, 1) = Some (Agent ''B''))"
proof -
  have l: "(1::nat) < length (unhappy_agents line_city)"
    by (simp add: line_city_unhappy)
  have g: "grid line_city (0, 1) = Some (Agent ''B'')"
    by (simp add: line_city_def)
  from snapshot_stays_occupied [OF l, of "sconst 0"] l g show ?thesis
    by (auto simp: line_city_unhappy)
qed



section \<open>Termination of the simulation\<close>

text \<open>
  Claim C8. \<open>run_simulation\<close> always returns, after at most \<open>max_iterations\<close>
  iterations. When it ends converged, it stopped before the budget was used, the final
  grid has no unhappy agent, and a larger budget gives the same result: no further
  iteration is performed. When it ends with the budget exhausted, it performed exactly
  \<open>max_iterations\<close> iterations (none for a negative budget).
\<close>

theorem run_simulation_terminates:
  "\<exists>r. run_simulation c rs max_iterations = Inr r
     \<and> int (iterations r) \<le> max 0 max_iterations
     \<and> (ended r = Converged \<longrightarrow>
          unhappy_agents (final_city r) = [] \<and> int (iterations r) < max_iterations
          \<and> (\<forall>m \<ge> max_iterations. run_simulation c rs m = Inr r))
     \<and> (ended r = BudgetExhausted \<longrightarrow> int (iterations r) = max 0 max_iterations)"
proof -
  from simulation_loop_bounds [of "nat max_iterations" 0 c rs] obtain r
    where r: "simulation_loop (nat max_iterations) 0 c rs = Inr r"
      and b: "iterations r \<le> nat max_iterations"
      and cv: "ended r = Converged \<longrightarrow>
                 unhappy_agents (final_city r) = [] \<and> iterations r < nat max_iterations"
      and be: "ended r = BudgetExhausted \<longrightarrow> iterations r = nat max_iterations"
    by auto
  have mono: "run_simulation c rs m = Inr r" if "ended r = Converged" "max_iterations \<le> m" for m
  proof -
    from that(2) have "nat m = nat max_iterations + (nat m - nat max_iterations)"
      by simp
    with simulation_loop_converged_mono [OF r that(1), of "nat m - nat max_iterations"]
    show ?thesis by (simp add: run_simulation_def)
  qed
  from r b cv be mono show ?thesis
    by (auto simp: run_simulation_def)
qed

theorem run_simulation_terminates_witness:
  "run_simulation full_city (sconst 0) 5 =
     Inr \<lparr>final_city = full_city, final_rng = sconst 0, iterations = 0, ended = Converged\<rparr>
   \<and> run_simulation full_city (sconst 0) 7 =
     Inr \<lparr>final_city = full_city, final_rng = sconst 0, iterations = 0, ended = Converged\<rparr>"
proof -
  have l: "simulation_loop (Suc 4) 0 full_city (sconst 0) =
     Inr \<lparr>final_city = full_city, final_rng = sconst 0, iterations = 0, ended = Converged\<rparr>"
    by (rule simulation_loop_converged [OF full_city_unhappy])
  have e: "run_simulation full_city (sconst 0) 5 =
     Inr \<lparr>final_city = full_city, final_rng = sconst 0, iterations = 0, ended = Converged\<rparr>"
    using l by (simp add: run_simulation_def)
  from run_simulation_terminates [of full_city "sconst 0" 5] e show ?thesis
    by auto
qed

section \<open>Happiness and the segregation level\<close>

text \<open>
  Claim C3. For every city (grid and threshold) and every coordinate in bounds,
  \<open>is_happy\<close> returns, without error, what the satisfaction rule of the specification
  prescribes: true on an empty cell, true on an occupied cell with no occupied
  neighbour, and otherwise the inclusive comparison of the share of same-category
  neighbours among the occupied neighbours with the threshold.
\<close>

theorem is_happy_refines_isSatisfied:
  assumes "0 \<le> x" "x < height c" "0 \<le> y" "y < width c"
  shows "is_happy c x y = Inr (isSatisfied c x y (discrimination_rate c))"
proof -
  have ig: "in_grid c (x, y)"
    using assms by (simp add: in_grid_def)
  show ?thesis
  proof (cases "grid c (x, y)")
    case None
    then show ?thesis
      by (simp add: is_happy_def isSatisfied_def grid_index_in_grid [OF ig])
  next
    case (Some a)
    have s: "length (filter (similar_to a) (get_neighbors c x y)) =
        card {p \<in> neighbor_coords c x y. \<exists>n. grid c p = Some n \<and> agent_type n = agent_type a}"
      by (simp only: length_filter_neighbors similar_to_iff)
    have t: "length (filter (\<lambda>n. n \<noteq> None) (get_neighbors c x y)) =
        card {p \<in> neighbor_coords c x y. grid c p \<noteq> None}"
      by (rule length_filter_neighbors)
    show ?thesis
      by (simp only: is_happy_def isSatisfied_def grid_index_in_grid [OF ig] Some s t
          sum.case option.case Let_def if_distrib [of Inr] if_True)
  qed
qed

theorem is_happy_refines_isSatisfied_witness:
  "is_happy line_city 0 1 = Inr False \<and> \<not> isSatisfied line_city 0 1 1"
proof -
  have b: "(0::int) \<le> 0" "0 < height line_city" "(0::int) \<le> 1" "1 < width line_city"
    by (simp_all add: line_city_def)
  have r: "discrimination_rate line_city = 1"
    by (simp add: line_city_def)
  from is_happy_refines_isSatisfied [OF b] line_city_happy_01 r show ?thesis
    by simp
qed

text \<open>
  Claim C7. \<open>calculate_segregation\<close> returns the number of happy occupied cells divided
  by the number of occupied cells, and 1 when no cell is occupied; the value lies
  between 0 and 1, and it is 1 when every occupied cell is happy.
\<close>

theorem segregation_level:
  "calculate_segregation c =
     (if occupied_coords c = [] then 1
      else of_nat (length (filter (\<lambda>p. is_happy c (fst p) (snd p) = Inr True)
                             (occupied_coords c)))
           / of_nat (length (occupied_coords c)))
   \<and> 0 \<le> calculate_segregation c \<and> calculate_segregation c \<le> 1
   \<and> ((\<forall>p \<in> set (occupied_coords c). is_happy c (fst p) (snd p) = Inr True)
        \<longrightarrow> calculate_segregation c = 1)
   \<and> (occupied_coords c = [] \<longrightarrow> calculate_segregation c = 1)"
proof -
  let ?occ = "occupied_coords c"
  let ?hap = "filter (\<lambda>p. is_happy c (fst p) (snd p) = Inr True) ?occ"
  have eq: "calculate_segregation c =
      (if ?occ = [] then 1 else of_nat (length ?hap) / of_nat (length ?occ))"
    by (simp add: calculate_segregation_def fold_count_cell occupied_coords_def)
  have le: "length ?hap \<le> length ?occ"
    by (rule length_filter_le)
  have lo: "0 \<le> calculate_segregation c"
    by (simp add: eq)
  have hi: "calculate_segregation c \<le> 1"
  proof (cases "?occ = []")
    case True
    then show ?thesis by (simp add: eq)
  next
    case False
    then have "(0::rat) < of_nat (length ?occ)" by simp
    moreover have "(of_nat (length ?hap) :: rat) \<le> of_nat (length ?occ)"
      using le by (simp only: of_nat_le_iff)
    ultimately have "(of_nat (length ?hap) :: rat) / of_nat (length ?occ) \<le> 1"
      by (simp add: divide_le_eq_1)
    with False show ?thesis by (simp add: eq)
  qed
  have all: "calculate_segregation c = 1"
    if "\<forall>p \<in> set ?occ. is_happy c (fst p) (snd p) = Inr True"
  proof -
    from that have "?hap = ?occ" by simp
    then show ?thesis by (simp add: eq)
  qed
  have none: "?occ = [] \<longrightarrow> calculate_segregation c = 1"
    by (simp add: eq)
  from eq lo hi all none show ?thesis
    by blast
qed

theorem segregation_level_witness:
  "occupied_coords full_city = [(0, 0)] \<and> is_happy full_city 0 0 = Inr True
   \<and> calculate_segregation full_city = 1"
proof -
  have "\<forall>p \<in> set (occupied_coords full_city). is_happy full_city (fst p) (snd p) = Inr True"
    by (simp add: full_city_occupied full_city_happy)
  with segregation_level [of full_city] full_city_occupied full_city_happy show ?thesis
    by blast
qed

section \<open>Construction of the city\<close>



section \<open>The moved set\<close>

text \<open>
  Claim C1 says that an agent relocated two or more times has exactly one entry in
  \<open>moved_agents\<close>, keyed by the coordinate it held before its first relocation; the
  docstring of \<open>City\<close> says the set "tracks unique agents that have moved". The code
  adds the source coordinate of every relocation instead. On the row \<open>R B B _\<close> with
  threshold 1 every draw is forced (there is one vacant cell at each call), so the run
  is the same for every random source: the red agent goes from \<open>(0, 0)\<close> to \<open>(0, 3)\<close>
  in the first iteration and from \<open>(0, 3)\<close> to \<open>(0, 2)\<close> in the second, and both
  \<open>(0, 0)\<close> and \<open>(0, 3)\<close> are in the moved set. After two iterations the set has four
  entries on a grid of three agents.
\<close>

theorem moved_agents_counts_sources:
  "\<exists>r1 r2. run_simulation line_city rs 1 = Inr r1 \<and> run_simulation line_city rs 2 = Inr r2
     \<and> map (grid line_city) [(0, 0), (0, 1), (0, 2), (0, 3)] =
          [Some (Agent ''R''), Some (Agent ''B''), Some (Agent ''B''), None]
     \<and> map (grid (final_city r1)) [(0, 0), (0, 1), (0, 2), (0, 3)] =
          [Some (Agent ''B''), None, Some (Agent ''B''), Some (Agent ''R'')]
     \<and> map (grid (final_city r2)) [(0, 0), (0, 1), (0, 2), (0, 3)] =
          [Some (Agent ''B''), Some (Agent ''B''), Some (Agent ''R''), None]
     \<and> moved_agents (final_city r1) = {(0, 0), (0, 1)}
     \<and> moved_agents (final_city r2) = {(0, 0), (0, 1), (0, 2), (0, 3)}
     \<and> card (moved_agents (final_city r2)) = 4
     \<and> length (occupied_coords (final_city r2)) = 3"
proof -
  note l0 = row4_line_city
  from row4_sweep_first [OF l0, of rs] obtain c1
    where s1: "relocate_each line_city rs [(0, 0), (0, 1)] = Inr (c1, stl (stl rs))"
      and c1: "row4 c1 [Some (Agent ''B''), None, Some (Agent ''B''), Some (Agent ''R'')]
                {(0, 1), (0, 0)}"
    by blast
  from row4_sweep_second [OF c1, of "stl (stl rs)"] obtain c2
    where s2: "relocate_each c1 (stl (stl rs)) [(0, 2), (0, 3)] =
                 Inr (c2, stl (stl (stl (stl rs))))"
      and c2: "row4 c2 [Some (Agent ''B''), Some (Agent ''B''), Some (Agent ''R''), None]
                {(0, 3), (0, 2), (0, 1), (0, 0)}"
    by blast
  have u0: "unhappy_agents line_city = [(0, 0), (0, 1)]"
    by (rule row4_unhappy_first [OF l0])
  have u1: "unhappy_agents c1 = [(0, 2), (0, 3)]"
    by (rule row4_unhappy_second [OF c1])
  have one: "simulation_loop (Suc 0) 0 line_city rs =
      Inr \<lparr>final_city = c1, final_rng = stl (stl rs), iterations = 1, ended = BudgetExhausted\<rparr>"
    by (simp add: u0 s1 del: relocate_each.simps)
  have two: "simulation_loop (Suc (Suc 0)) 0 line_city rs =
      Inr \<lparr>final_city = c2, final_rng = stl (stl (stl (stl rs))), iterations = 2,
           ended = BudgetExhausted\<rparr>"
    by (simp add: u0 s1 u1 s2 del: relocate_each.simps)
  have r1: "run_simulation line_city rs 1 =
      Inr \<lparr>final_city = c1, final_rng = stl (stl rs), iterations = 1, ended = BudgetExhausted\<rparr>"
    using one by (simp add: run_simulation_def)
  have r2: "run_simulation line_city rs 2 =
      Inr \<lparr>final_city = c2, final_rng = stl (stl (stl (stl rs))), iterations = 2,
           ended = BudgetExhausted\<rparr>"
    using two by (simp add: run_simulation_def numeral_2_eq_2)
  have m2: "moved_agents c2 = {(0, 0), (0, 1), (0, 2), (0, 3)}"
    using c2 by (auto simp: row4_def)
  have m1: "moved_agents c1 = {(0, 0), (0, 1)}"
    using c1 by (auto simp: row4_def)
  have cd: "card (moved_agents c2) = 4"
    by (simp add: m2)
  have oc: "length (occupied_coords c2) = 3"
    using c2 by (simp add: occupied_coords_def row4_cells [OF c2] row4_def)
  from r1 r2 l0 c1 c2 m1 m2 cd oc show ?thesis
    by (simp add: row4_def)
qed

end
